theory Spec2Isabelle
  imports Main
begin

section \<open>JavaScript values and strings\<close>

text \<open>
  The values a request payload holds. A string is a list of characters. A number is given by
  what the code observes of it: whether it is truthy (neither zero nor NaN) and the string
  that its conversion gives. \<open>JObject\<close> stands for an object or a function, given by the
  string that its conversion gives. An object with properties (\<open>RequestData\<close>) is the list
  of its own properties in insertion order, each key at most once; its prototype is
  \<open>Object.prototype\<close>.
\<close>

datatype jsval = JUndefined | JNull | JBool bool | JNum bool string | JStr string | JObject string

type_synonym RequestData = "(string \<times> jsval) list"

text \<open>The truthiness test that \<open>if (v)\<close>, \<open>v && ...\<close> and \<open>!v\<close> apply.\<close>

fun truthy :: "jsval \<Rightarrow> bool" where
  "truthy JUndefined = False"
| "truthy JNull = False"
| "truthy (JBool b) = b"
| "truthy (JNum nonzero str) = nonzero"
| "truthy (JStr s) = (s \<noteq> [])"
| "truthy (JObject str) = True"

text \<open>The decimal digits of a natural number, as an index is written.\<close>

fun digits :: "nat \<Rightarrow> string" where
  "digits n = (if n < 10 then [''0123456789'' ! n]
               else digits (n div 10) @ [''0123456789'' ! (n mod 10)])"

text \<open>String conversion of a value, as \<open>String(v)\<close>, \<open>join\<close> and template literals do.\<close>

fun ToString :: "jsval \<Rightarrow> string" where
  "ToString JUndefined = ''undefined''"
| "ToString JNull = ''null''"
| "ToString (JBool b) = (if b then ''true'' else ''false'')"
| "ToString (JNum nonzero str) = str"
| "ToString (JStr s) = s"
| "ToString (JObject str) = str"

text \<open>\<open>s.split(sep)\<close> for a one-character separator: never the empty list.\<close>

fun split :: "char \<Rightarrow> string \<Rightarrow> string list" where
  "split sep [] = [[]]"
| "split sep (c # cs) =
     (let r = split sep cs in if c = sep then [] # r else (c # hd r) # tl r)"

fun join_strings :: "string \<Rightarrow> string list \<Rightarrow> string" where
  "join_strings sep [] = []"
| "join_strings sep [x] = x"
| "join_strings sep (x # y # ys) = x @ sep @ join_strings sep (y # ys)"

text \<open>
  \<open>Array.prototype.join\<close>: \<open>undefined\<close> and \<open>null\<close> elements become the empty string,
  every other element its string conversion.
\<close>

definition join :: "string \<Rightarrow> jsval list \<Rightarrow> string" where
  "join sep xs =
     join_strings sep (map (\<lambda>v. if v = JUndefined \<or> v = JNull then [] else ToString v) xs)"

subsection \<open>Objects\<close>

text \<open>
  The properties that every object inherits from \<open>Object.prototype\<close>, and the value that
  reading one gives: a built-in function, printed as the engine prints it, and for
  \<open>__proto__\<close> the prototype object itself.
\<close>

definition prototype_keys :: "string list" where
  "prototype_keys =
     [''constructor'', ''__defineGetter__'', ''__defineSetter__'', ''hasOwnProperty'',
      ''__lookupGetter__'', ''__lookupSetter__'', ''isPrototypeOf'', ''propertyIsEnumerable'',
      ''toString'', ''valueOf'', ''__proto__'', ''toLocaleString'']"

definition inherited :: "string \<Rightarrow> jsval" where
  "inherited key =
     (if key = ''__proto__'' then JObject ''[object Object]''
      else if key = ''constructor'' then JObject ''function Object() { [native code] }''
      else if key \<in> set prototype_keys then JObject (''function '' @ key @ ''() { [native code] }'')
      else JUndefined)"

text \<open>
  \<open>obj[key]\<close>: the own property when there is one, else the inherited one, else
  \<open>undefined\<close>.
\<close>

definition obj_get :: "RequestData \<Rightarrow> string \<Rightarrow> jsval" where
  "obj_get obj key = (case map_of obj key of None \<Rightarrow> inherited key | Some v \<Rightarrow> v)"

text \<open>\<open>delete obj[key]\<close>: an own property goes, an inherited one stays.\<close>

definition obj_delete :: "string \<Rightarrow> RequestData \<Rightarrow> RequestData" where
  "obj_delete key obj = filter (\<lambda>kv. fst kv \<noteq> key) obj"

text \<open>
  The definition of an own property \<open>key\<close> with value \<open>v\<close>: an existing key keeps its place,
  a new one goes last.
\<close>

fun obj_set :: "string \<Rightarrow> 'v \<Rightarrow> (string \<times> 'v) list \<Rightarrow> (string \<times> 'v) list" where
  "obj_set key v [] = [(key, v)]"
| "obj_set key v ((k, w) # rest) =
     (if k = key then (k, v) # rest else (k, w) # obj_set key v rest)"

definition is_digit :: "char \<Rightarrow> bool" where
  "is_digit c = (c \<in> set ''0123456789'')"

definition digit_val :: "char \<Rightarrow> nat" where
  "digit_val c = of_char c - 48"

definition digits_val :: "string \<Rightarrow> nat" where
  "digits_val ds = foldl (\<lambda>a c. 10 * a + digit_val c) 0 ds"

text \<open>
  An array index: a key that is the decimal writing, without a leading zero, of a number
  below \<open>2^32 - 1\<close>.
\<close>

definition array_index :: "string \<Rightarrow> nat option" where
  "array_index key =
     (if key \<noteq> [] \<and> list_all is_digit key \<and> (length key = 1 \<or> hd key \<noteq> CHR ''0'')
         \<and> digits_val key < 4294967295
      then Some (digits_val key) else None)"

text \<open>
  The own properties in the order in which \<open>Object.keys\<close>, \<open>Object.assign\<close> and the
  conversion to a record enumerate them: the array indices in ascending order first, then
  the other keys in insertion order.
\<close>

definition own_properties :: "(string \<times> 'v) list \<Rightarrow> (string \<times> 'v) list" where
  "own_properties obj =
     sort_key (\<lambda>kv. case array_index (fst kv) of None \<Rightarrow> 0 | Some i \<Rightarrow> i)
       (filter (\<lambda>kv. array_index (fst kv) \<noteq> None) obj)
     @ filter (\<lambda>kv. array_index (fst kv) = None) obj"

definition Object_keys :: "RequestData \<Rightarrow> string list" where
  "Object_keys obj = map fst (own_properties obj)"

section \<open>The path and query resolver (request/lib.ts)\<close>

text \<open>A query is a string or an object; \<open>null\<close> is \<open>None\<close> of the option around it.\<close>

datatype query = QString string | QRecord RequestData

text \<open>The own enumerable properties of a string: its characters under their indices.\<close>

definition string_props :: "string \<Rightarrow> RequestData" where
  "string_props s = map (\<lambda>i. (digits i, JStr [s ! i])) [0..<length s]"

fun query_props :: "query option \<Rightarrow> RequestData" where
  "query_props None = []"
| "query_props (Some (QString s)) = string_props s"
| "query_props (Some (QRecord r)) = r"

text \<open>
  \<open>Object.assign(target, source)\<close>, the target updated in place and returned: each own
  property of the source is assigned in enumeration order. An assignment to \<open>__proto__\<close>
  is taken by the setter that the target inherits, so no own property arises from it (the
  prototype, which a null or object value would replace, stays \<open>Object.prototype\<close> here).
\<close>

definition Object_assign :: "RequestData \<Rightarrow> query option \<Rightarrow> RequestData" where
  "Object_assign target source =
     fold (\<lambda>kv t. if fst kv = ''__proto__'' \<and> map_of t ''__proto__'' = None then t
                   else obj_set (fst kv) (snd kv) t)
       (own_properties (query_props source)) target"

text \<open>\<open>/^:/.test(component)\<close>\<close>

definition pathReg_test :: "string \<Rightarrow> bool" where
  "pathReg_test component = (case component of [] \<Rightarrow> False | c # _ \<Rightarrow> c = CHR '':'')"

text \<open>
  The callback of \<open>urlComponents.map\<close> in \<open>transformPathParams\<close>, run over the components
  from left to right. The object \<open>query\<close> and the array \<open>matchs\<close> are mutated by the callback,
  so both are threaded through; \<open>component.replace(":", "")\<close> removes the first colon.
\<close>

fun mapComponents ::
  "string list \<Rightarrow> RequestData \<Rightarrow> string list \<Rightarrow> jsval list \<times> RequestData \<times> string list"
where
  "mapComponents [] query matchs = ([], query, matchs)"
| "mapComponents (component # rest) query matchs =
     (let key = remove1 CHR '':'' component in
      if pathReg_test component \<and> truthy (obj_get query key) then
        (let data = obj_get query key;
             (out, query', matchs') = mapComponents rest (obj_delete key query) (matchs @ [key])
         in (data # out, query', matchs'))
      else
        (let (out, query', matchs') = mapComponents rest query matchs
         in (JStr component # out, query', matchs')))"

text \<open>
  \<open>transformPathParams(url, query)\<close>: the returned pair \<open>[url, matchs]\<close>, and the object
  \<open>query\<close> as the call leaves it.
\<close>

definition transformPathParams ::
  "string \<Rightarrow> RequestData \<Rightarrow> (string \<times> string list) \<times> RequestData"
where
  "transformPathParams url query =
     (let urlComponents = split CHR ''/'' url;
          (mapped, query', matchs) = mapComponents urlComponents query []
      in ((join ''/'' mapped, matchs), query'))"

subsection \<open>What the resolver is to compute\<close>

text \<open>
  The result of \<open>transformPathParams\<close> stated on the data map as it is given, without the
  mutation, for a URL none of whose segments \<open>:name\<close> names a property that objects inherit.
  A segment is resolvable when it begins with a colon and the value under the name behind
  the colon is truthy; the segment at index \<open>i\<close> consumes its key when it is resolvable and
  no earlier segment is the same. The components are the values of the consuming segments
  and the other segments as they are; the consumed keys are the names of the consuming
  segments, in order; the remaining map is the given one without those keys.
\<close>

definition plain_names :: "string list \<Rightarrow> bool" where
  "plain_names segs = (\<forall>c \<in> set segs. pathReg_test c \<longrightarrow> tl c \<notin> set prototype_keys)"

definition resolvable :: "RequestData \<Rightarrow> string \<Rightarrow> bool" where
  "resolvable data component = (pathReg_test component \<and> truthy (obj_get data (tl component)))"

definition consumed_at :: "RequestData \<Rightarrow> string list \<Rightarrow> nat \<Rightarrow> bool" where
  "consumed_at data segs i = (resolvable data (segs ! i) \<and> segs ! i \<notin> set (take i segs))"

definition spec_components :: "RequestData \<Rightarrow> string list \<Rightarrow> jsval list" where
  "spec_components data segs =
     map (\<lambda>i. if consumed_at data segs i then obj_get data (tl (segs ! i)) else JStr (segs ! i))
       [0..<length segs]"

definition spec_consumed :: "RequestData \<Rightarrow> string list \<Rightarrow> string list" where
  "spec_consumed data segs = map (\<lambda>i. tl (segs ! i)) (filter (consumed_at data segs) [0..<length segs])"

definition spec_remaining :: "RequestData \<Rightarrow> string list \<Rightarrow> RequestData" where
  "spec_remaining data segs = filter (\<lambda>kv. fst kv \<notin> set (spec_consumed data segs)) data"

text \<open>
  The same notions relative to the segments \<open>pre\<close> already processed: the keys still in the
  map, and the segments of \<open>comps\<close> that consume.
\<close>

definition keep :: "RequestData \<Rightarrow> string list \<Rightarrow> string \<Rightarrow> bool" where
  "keep data pre k = (\<forall>c \<in> set pre. resolvable data c \<longrightarrow> k \<noteq> tl c)"

definition cons_at :: "RequestData \<Rightarrow> string list \<Rightarrow> string list \<Rightarrow> nat \<Rightarrow> bool" where
  "cons_at data pre comps i =
     (resolvable data (comps ! i) \<and> comps ! i \<notin> set pre \<and> comps ! i \<notin> set (take i comps))"

subsection \<open>URLSearchParams\<close>

text \<open>
  The platform's \<open>URLSearchParams\<close>: an ordered list of name and value pairs.
  \<open>new URLSearchParams(record)\<close> takes each own property, in enumeration order, with its
  value as a string.
\<close>

type_synonym URLSearchParams = "(string \<times> string) list"

definition URLSearchParams_of_record :: "RequestData \<Rightarrow> URLSearchParams" where
  "URLSearchParams_of_record r = map (\<lambda>kv. (fst kv, ToString (snd kv))) (own_properties r)"

text \<open>\<open>params.set(name, value)\<close>: the first pair of that name takes the value, the others go.\<close>

fun URLSearchParams_set :: "string \<Rightarrow> string \<Rightarrow> URLSearchParams \<Rightarrow> URLSearchParams" where
  "URLSearchParams_set name v [] = [(name, v)]"
| "URLSearchParams_set name v ((n, w) # rest) =
     (if n = name then (n, v) # filter (\<lambda>p. fst p \<noteq> name) rest
      else (n, w) # URLSearchParams_set name v rest)"

definition hex_byte :: "char \<Rightarrow> string" where
  "hex_byte c = (let n = (of_char c :: nat) in
     [''0123456789ABCDEF'' ! (n div 16), ''0123456789ABCDEF'' ! (n mod 16)])"

text \<open>
  The \<open>application/x-www-form-urlencoded\<close> serialisation of one name or value, a character
  being one byte: letters, digits and \<open>*-._\<close> stay, a space becomes \<open>+\<close>, any other byte
  is percent-encoded.
\<close>

definition urlencode_char :: "char \<Rightarrow> string" where
  "urlencode_char c =
     (if c \<in> set ''ABCDEFGHIJKLMNOPQRSTUVWXYZabcdefghijklmnopqrstuvwxyz0123456789*-._'' then [c]
      else if c = CHR '' '' then ''+''
      else CHR ''%'' # hex_byte c)"

definition urlencode :: "string \<Rightarrow> string" where
  "urlencode s = concat (map urlencode_char s)"

definition URLSearchParams_toString :: "URLSearchParams \<Rightarrow> string" where
  "URLSearchParams_toString ps =
     join_strings ''&'' (map (\<lambda>p. urlencode (fst p) @ ''='' @ urlencode (snd p)) ps)"

text \<open>
  The callback of \<open>query.split("&").forEach\<close> in \<open>queryToUrlParams\<close>: the destructuring
  \<open>[key, value] = part.split("=")\<close> leaves \<open>value\<close> undefined when the part has no \<open>=\<close>, and
  \<open>set\<close> then stores the string \<open>undefined\<close>.
\<close>

definition setQueryPart :: "string \<Rightarrow> URLSearchParams \<Rightarrow> URLSearchParams" where
  "setQueryPart part ps =
     (let kv = split CHR ''='' part;
          key = hd kv;
          v = (case tl kv of [] \<Rightarrow> ''undefined'' | x # _ \<Rightarrow> x)
      in URLSearchParams_set key v ps)"

fun queryToUrlParams :: "query \<Rightarrow> URLSearchParams" where
  "queryToUrlParams (QRecord r) = URLSearchParams_of_record r"
| "queryToUrlParams (QString s) =
     (let q = (case s of c # cs \<Rightarrow> if c = CHR ''?'' then cs else s | [] \<Rightarrow> s)
      in fold setQueryPart (split CHR ''&'' q) [])"

text \<open>
  \<open>addQuery(url, query, body)\<close>. \<open>Object.assign(body || {}, query)\<close> writes the query's
  properties into \<open>body\<close> itself when there is one, and \<open>transformPathParams\<close> then deletes
  from that same object; \<open>query\<close> is only read. The result is the returned pair and \<open>body\<close>
  as the call leaves it.
\<close>

definition addQuery ::
  "string \<Rightarrow> query option \<Rightarrow> RequestData option \<Rightarrow> (string \<times> string list) \<times> RequestData option"
where
  "addQuery url query body =
     (let merged = Object_assign (case body of None \<Rightarrow> [] | Some b \<Rightarrow> b) query;
          ((url1, paramMatches), merged') = transformPathParams url merged;
          body' = (case body of None \<Rightarrow> None | Some _ \<Rightarrow> Some merged')
      in case query of
           None \<Rightarrow> ((url1, []), body')
         | Some q \<Rightarrow>
             if q = QString [] \<or> length (Object_keys (query_props query)) = 0
             then ((url1, []), body')
             else
               (let urlSearchParams = queryToUrlParams q;
                    url2 = (if length urlSearchParams > 0
                            then url1 @ (if CHR ''?'' \<in> set url1 then ''&'' else ''?'')
                                 @ URLSearchParams_toString urlSearchParams
                            else url1)
                in ((url2, paramMatches), body')))"

subsection \<open>JSON\<close>

text \<open>
  The values \<open>JSON.parse\<close> produces. A number is kept as the decimal mantissa and exponent
  of its literal (\<open>JsonNumber m e\<close> stands for \<open>m * 10 ^ e\<close>), without the rounding to a double;
  a string is a list of bytes, a \<open>\u\<close> escape being stored as the UTF-8 bytes of its code unit.
\<close>

datatype json =
    JsonNull
  | JsonBool bool
  | JsonNumber int int
  | JsonString string
  | JsonArray "json list"
  | JsonObject "(string \<times> json) list"

datatype exn = SyntaxError

definition is_ws :: "char \<Rightarrow> bool" where
  "is_ws c = (c = CHR '' '' \<or> c = CHR 0x09 \<or> c = CHR 0x0A \<or> c = CHR 0x0D)"

definition skip_ws :: "string \<Rightarrow> string" where
  "skip_ws s = dropWhile is_ws s"

definition hex_val :: "char \<Rightarrow> nat option" where
  "hex_val c =
     (if is_digit c then Some (digit_val c)
      else if c \<in> set ''abcdef'' then Some (of_char c - 87)
      else if c \<in> set ''ABCDEF'' then Some (of_char c - 55)
      else None)"

definition utf8_encode :: "nat \<Rightarrow> string" where
  "utf8_encode n =
     (if n < 128 then [char_of n]
      else if n < 2048 then [char_of (192 + n div 64), char_of (128 + n mod 64)]
      else [char_of (224 + n div 4096), char_of (128 + (n div 64) mod 64), char_of (128 + n mod 64)])"

text \<open>The characters of a string literal after its opening quote, up to the closing one.\<close>

fun parse_string :: "string \<Rightarrow> (string \<times> string) option" where
  "parse_string [] = None"
| "parse_string (c # r) =
     (if c = CHR 0x22 then Some ([], r)
      else if c = CHR 0x5C then
        (case r of
           [] \<Rightarrow> None
         | e # r1 \<Rightarrow>
             if e = CHR ''u'' then
               (case r1 of
                  h1 # h2 # h3 # h4 # r2 \<Rightarrow>
                    (case (hex_val h1, hex_val h2, hex_val h3, hex_val h4) of
                       (Some a, Some b, Some c', Some d) \<Rightarrow>
                         map_option (\<lambda>p. (utf8_encode (((a * 16 + b) * 16 + c') * 16 + d) @ fst p, snd p))
                           (parse_string r2)
                     | _ \<Rightarrow> None)
                | _ \<Rightarrow> None)
             else
               (case map_of [(CHR 0x22, CHR 0x22), (CHR 0x5C, CHR 0x5C), (CHR ''/'', CHR ''/''),
                             (CHR ''b'', CHR 0x08), (CHR ''f'', CHR 0x0C), (CHR ''n'', CHR 0x0A),
                             (CHR ''r'', CHR 0x0D), (CHR ''t'', CHR 0x09)] e of
                  None \<Rightarrow> None
                | Some x \<Rightarrow> map_option (\<lambda>p. (x # fst p, snd p)) (parse_string r1)))
      else if (of_char c :: nat) < 32 then None
      else map_option (\<lambda>p. (c # fst p, snd p)) (parse_string r))"

text \<open>
  A number literal: an optional minus, \<open>0\<close> or digits without a leading zero, an optional
  fraction, an optional exponent.
\<close>

definition parse_number :: "string \<Rightarrow> (json \<times> string) option" where
  "parse_number s =
     (let neg = (take 1 s = ''-'');
          s1 = (if neg then drop 1 s else s);
          ds = (if take 1 s1 = ''0'' then ''0'' else takeWhile is_digit s1);
          s2 = drop (length ds) s1;
          has_frac = (take 1 s2 = ''.'');
          fs = (if has_frac then takeWhile is_digit (drop 1 s2) else []);
          s3 = (if has_frac then drop (1 + length fs) s2 else s2);
          has_exp = (take 1 s3 = ''e'' \<or> take 1 s3 = ''E'');
          s4 = (if has_exp then drop 1 s3 else s3);
          eneg = (has_exp \<and> take 1 s4 = ''-'');
          s5 = (if has_exp \<and> (take 1 s4 = ''-'' \<or> take 1 s4 = ''+'') then drop 1 s4 else s4);
          es = (if has_exp then takeWhile is_digit s5 else []);
          s6 = drop (length es) s5;
          m = int (digits_val (ds @ fs));
          e = int (digits_val es)
      in if ds = [] \<or> (has_frac \<and> fs = []) \<or> (has_exp \<and> es = []) then None
         else Some (JsonNumber (if neg then - m else m) ((if eneg then - e else e) - int (length fs)), s6))"

text \<open>
  A value, the elements of an array after its \<open>[\<close> and the members of an object after
  its \<open>{\<close>. The first argument bounds the number of nested calls; \<open>JSON_parse\<close> starts it
  at twice the length of the text, which no text exhausts, each call or the one before it
  consuming a character.
\<close>

fun parse_value :: "nat \<Rightarrow> string \<Rightarrow> (json \<times> string) option"
and parse_elements :: "nat \<Rightarrow> string \<Rightarrow> json list \<Rightarrow> (json \<times> string) option"
and parse_members :: "nat \<Rightarrow> string \<Rightarrow> (string \<times> json) list \<Rightarrow> (json \<times> string) option"
where
  "parse_value 0 s = None"
| "parse_value (Suc n) s =
     (case skip_ws s of
        [] \<Rightarrow> None
      | c # r \<Rightarrow>
          if c = CHR ''{'' then
            (case skip_ws r of
               [] \<Rightarrow> None
             | d # r' \<Rightarrow> if d = CHR ''}'' then Some (JsonObject [], r') else parse_members n (d # r') [])
          else if c = CHR ''['' then
            (case skip_ws r of
               [] \<Rightarrow> None
             | d # r' \<Rightarrow> if d = CHR '']'' then Some (JsonArray [], r') else parse_elements n (d # r') [])
          else if c = CHR 0x22 then map_option (\<lambda>p. (JsonString (fst p), snd p)) (parse_string r)
          else if c = CHR ''-'' \<or> is_digit c then parse_number (c # r)
          else if take 4 (c # r) = ''true'' then Some (JsonBool True, drop 4 (c # r))
          else if take 5 (c # r) = ''false'' then Some (JsonBool False, drop 5 (c # r))
          else if take 4 (c # r) = ''null'' then Some (JsonNull, drop 4 (c # r))
          else None)"
| "parse_elements 0 s acc = None"
| "parse_elements (Suc n) s acc =
     (case parse_value n s of
        None \<Rightarrow> None
      | Some (v, r) \<Rightarrow>
          (case skip_ws r of
             [] \<Rightarrow> None
           | c # r' \<Rightarrow>
               if c = CHR '','' then parse_elements n r' (acc @ [v])
               else if c = CHR '']'' then Some (JsonArray (acc @ [v]), r')
               else None))"
| "parse_members 0 s acc = None"
| "parse_members (Suc n) s acc =
     (case skip_ws s of
        [] \<Rightarrow> None
      | c # r \<Rightarrow>
          if c \<noteq> CHR 0x22 then None
          else
            (case parse_string r of
               None \<Rightarrow> None
             | Some (key, r1) \<Rightarrow>
                 (case skip_ws r1 of
                    [] \<Rightarrow> None
                  | c1 # r2 \<Rightarrow>
                      if c1 \<noteq> CHR '':'' then None
                      else
                        (case parse_value n r2 of
                           None \<Rightarrow> None
                         | Some (v, r3) \<Rightarrow>
                             (case skip_ws r3 of
                                [] \<Rightarrow> None
                              | c3 # r4 \<Rightarrow>
                                  if c3 = CHR '','' then parse_members n r4 (obj_set key v acc)
                                  else if c3 = CHR ''}'' then Some (JsonObject (obj_set key v acc), r4)
                                  else None)))))"

text \<open>
  The platform's \<open>JSON.parse\<close>: one value between optional white space, a \<open>SyntaxError\<close>
  for any other text.
\<close>

definition JSON_parse :: "string \<Rightarrow> exn + json" where
  "JSON_parse text =
     (case parse_value (2 * length text + 2) text of
        None \<Rightarrow> Inl SyntaxError
      | Some (v, r) \<Rightarrow> if skip_ws r = [] then Inr v else Inl SyntaxError)"

text \<open>\<open>try { body } catch (error) { handler }\<close> on results that may be an exception.\<close>

definition try_catch :: "'e + 'a \<Rightarrow> ('e \<Rightarrow> 'e + 'a) \<Rightarrow> 'e + 'a" where
  "try_catch body handler = (case body of Inl e \<Rightarrow> handler e | Inr v \<Rightarrow> Inr v)"

text \<open>
  \<open>parse(data)\<close>, over the JSON parser it calls. A returned string is a \<open>JsonString\<close>, be it
  decoded or the fallback.
\<close>

definition parse :: "(string \<Rightarrow> exn + json) \<Rightarrow> string \<Rightarrow> exn + json" where
  "parse parser data = try_catch (parser data) (\<lambda>error. Inr (JsonString data))"

section \<open>The request pipeline (request/core.ts)\<close>

subsection \<open>Data\<close>

text \<open>
  Modelled from the spec: the types of request/def.ts and request/fetch-types.ts, which are
  not under src/. Their fields are the ones core.ts reads and writes. The field \<open>request\<close>
  of \<open>RequestReturn\<close> and \<open>FailedParams\<close> always refers to the one descriptor of the run and is
  left out; \<open>resend\<close> is the method its closure sends again with.
\<close>

datatype RequestMethod = GET | HEAD | OPTIONS | POST | PUT | PATCH | DELETE

record 'f CallbackObject =
  co_func :: 'f
  co_once :: bool
  co_method :: "RequestMethod option"

text \<open>A hook slot holds one function or an array of functions; \<open>None\<close> is an unset slot.\<close>

datatype 'h hook_set = Single 'h | Many "'h list"

record 'h RequestHooks =
  hooks_before :: "'h hook_set option"
  hooks_init :: "'h hook_set option"
  hooks_success :: "'h hook_set option"
  hooks_failed :: "'h hook_set option"

text \<open>A query of the configuration: a string, or the address of an object.\<close>

datatype query_ref = QueryString string | QueryObject nat

record ('h, 'f) RequestConfig =
  cfg_headers :: "(string \<times> string) list"
  cfg_query :: "query_ref option"
  cfg_wait :: "nat option"
  cfg_hooks :: "'h RequestHooks"
  cfg_failed :: 'f

record 'f RequestCallback =
  cb_success :: "'f CallbackObject list"
  cb_failed :: "'f CallbackObject list"
  cb_finally :: "'f CallbackObject list"

text \<open>
  The arguments of \<open>new Request(input, {method, headers, body})\<close>: \<open>input\<close> is what
  \<open>addQuery\<close> returned, \<open>body\<close> the object that \<open>JSON.stringify\<close> serialises.
\<close>

record TransportRequest =
  tr_input :: "string \<times> string list"
  tr_method :: RequestMethod
  tr_headers :: "(string \<times> string) list"
  tr_body :: "RequestData option"

text \<open>
  The descriptor. \<open>rq_data\<close> is the address of the payload object, \<open>rq_wait\<close> the handle of
  the debounce timer, \<open>rq_request\<close> the transport request once built.
\<close>

record ('h, 'f) FastjsRequest =
  rq_url :: string
  rq_data :: nat
  rq_config :: "('h, 'f) RequestConfig"
  rq_callback :: "'f RequestCallback"
  rq_wait :: "nat option"
  rq_request :: "TransportRequest option"

text \<open>The platform's response: status, header entries and body text.\<close>

record Response =
  resp_status :: int
  resp_headers :: "(string \<times> string) list"
  resp_text :: string

record RequestReturn =
  rr_headers :: "(string \<times> string) list"
  rr_headersObj :: "(string \<times> string) list"
  rr_response :: Response
  rr_data :: json
  rr_status :: int
  rr_resend :: RequestMethod

text \<open>The \<open>error\<close> of \<open>FailedParams\<close>: an \<open>Error\<close> with its message, or a status code.\<close>

datatype error_value = Error string | StatusCode int

record FailedParams =
  fp_error :: error_value
  fp_intercept :: bool
  fp_hook :: "string option"
  fp_response :: "RequestReturn option"

text \<open>The first parameter of a hook; the second one, where there is one, is the descriptor.\<close>

datatype hook_param = HookRequest | HookReturn RequestReturn | HookError error_value | HookStatus int

text \<open>
  The parameter lists of the callbacks: \<open>[data, requestReturn]\<close>, \<open>[failedParams]\<close> and
  \<open>[request]\<close>.
\<close>

datatype cb_params = SuccessArgs string RequestReturn | FailedArgs FailedParams | RequestArgs

text \<open>
  What a run does to the outside: the call of the descriptor's \<open>failed\<close> handler, the call
  of a callback entry's function, \<open>fetch\<close>, and the rejection of the promise of
  \<open>passthrough\<close> with an error that nothing handles.
\<close>

datatype 'f event =
    HandlerCall 'f FailedParams
  | CallbackCall 'f cb_params
  | FetchCall TransportRequest
  | Rejected error_value

text \<open>
  The state a run works on: the descriptor, the payload objects by address, and the calls
  made so far.
\<close>

record ('h, 'f) pipeline =
  req :: "('h, 'f) FastjsRequest"
  heap :: "nat \<Rightarrow> RequestData"
  trace :: "'f event list"

text \<open>
  Modelled from the spec: the process-wide configuration of request/config.ts, which is not
  under src/: the response handler, the response-code predicate and the \<open>runAll\<close> flag.
\<close>

record ('h, 'f) globalConfig =
  handleResponse :: "Response \<Rightarrow> ('h, 'f) FastjsRequest \<Rightarrow> string"
  responseCode :: "int \<Rightarrow> ('h, 'f) FastjsRequest \<Rightarrow> bool"
  runAll :: bool

subsection \<open>runHooks\<close>

text \<open>
  The loop \<open>for (const hook of hooks)\<close> of \<open>runHooks\<close>, from \<open>result\<close> so far. A hook is a
  predicate: \<open>app hook params\<close> is what the call \<open>hook(params[0], params[1])\<close> returns. The
  second component lists the hooks called, in the order of the calls.
\<close>

fun runHooks_loop :: "('h \<Rightarrow> 'p \<Rightarrow> bool) \<Rightarrow> bool \<Rightarrow> 'h list \<Rightarrow> 'p \<Rightarrow> bool \<Rightarrow> bool \<times> 'h list" where
  "runHooks_loop app all [] params result = (result, [])"
| "runHooks_loop app all (hook # rest) params result =
     (if \<not> app hook params then
        (if \<not> all then (False, [hook])
         else (let (r, calls) = runHooks_loop app all rest params False in (r, hook # calls)))
      else (let (r, calls) = runHooks_loop app all rest params result in (r, hook # calls)))"

definition runHooks :: "('h \<Rightarrow> 'p \<Rightarrow> bool) \<Rightarrow> bool \<Rightarrow> 'h hook_set option \<Rightarrow> 'p \<Rightarrow> bool \<times> 'h list" where
  "runHooks app all hooks params =
     (case hooks of
        None \<Rightarrow> (True, [])
      | Some (Single hook) \<Rightarrow> (app hook params, [hook])
      | Some (Many hs) \<Rightarrow> runHooks_loop app all hs params True)"

subsection \<open>matchCallback\<close>

text \<open>\<open>callback.splice(i, 1)\<close>\<close>

definition splice1 :: "nat \<Rightarrow> 'a list \<Rightarrow> 'a list" where
  "splice1 i xs = take i xs @ drop (Suc i) xs"

text \<open>
  The loop of \<open>matchCallback\<close> from index \<open>i\<close>. After \<open>splice(i, 1), i--\<close> the loop's \<open>i++\<close>
  brings the index back to \<open>i\<close>. The result is the array as the loop leaves it, and the
  calls \<open>call.func(...params)\<close> in their order.
\<close>

function matchCallback_loop ::
  "nat \<Rightarrow> 'f CallbackObject list \<Rightarrow> 'a \<Rightarrow> RequestMethod option \<Rightarrow> ('f \<times> 'a) list
   \<Rightarrow> 'f CallbackObject list \<times> ('f \<times> 'a) list"
where
  "matchCallback_loop i callback params m calls =
     (if i < length callback then
        (let call = callback ! i in
         if co_method call \<noteq> None \<and> co_method call \<noteq> m
         then matchCallback_loop (i + 1) callback params m calls
         else if co_once call
         then matchCallback_loop i (splice1 i callback) params m (calls @ [(co_func call, params)])
         else matchCallback_loop (i + 1) callback params m (calls @ [(co_func call, params)]))
      else (callback, calls))"
  by pat_completeness auto
termination
  by (relation "measure (\<lambda>(i, callback, params, m, calls). length callback - i)")
     (auto simp: splice1_def)

declare matchCallback_loop.simps [simp del]

text \<open>
  An entry takes part in a dispatch with method \<open>m\<close> when it has no method filter or its
  filter is \<open>m\<close>; \<open>m\<close> is \<open>None\<close> for a dispatch with \<open>null\<close>.
\<close>

definition co_matches :: "RequestMethod option \<Rightarrow> 'f CallbackObject \<Rightarrow> bool" where
  "co_matches m call = (co_method call = None \<or> co_method call = m)"

definition matchCallback ::
  "'f CallbackObject list \<Rightarrow> 'a \<Rightarrow> RequestMethod option \<Rightarrow> 'f CallbackObject list \<times> ('f \<times> 'a) list"
where
  "matchCallback callback params m = matchCallback_loop 0 callback params m []"

text \<open>
  \<open>matchCallback\<close> on the three arrays of the descriptor: the array is updated in place and
  the calls are appended to the trace.
\<close>

definition matchCallback_success ::
  "cb_params \<Rightarrow> RequestMethod option \<Rightarrow> ('h, 'f) pipeline \<Rightarrow> ('h, 'f) pipeline"
where
  "matchCallback_success params m s =
     (let (callback, calls) = matchCallback (cb_success (rq_callback (req s))) params m
      in s\<lparr>req := (req s)\<lparr>rq_callback := (rq_callback (req s))\<lparr>cb_success := callback\<rparr>\<rparr>,
           trace := trace s @ map (\<lambda>c. CallbackCall (fst c) (snd c)) calls\<rparr>)"

definition matchCallback_failed ::
  "cb_params \<Rightarrow> RequestMethod option \<Rightarrow> ('h, 'f) pipeline \<Rightarrow> ('h, 'f) pipeline"
where
  "matchCallback_failed params m s =
     (let (callback, calls) = matchCallback (cb_failed (rq_callback (req s))) params m
      in s\<lparr>req := (req s)\<lparr>rq_callback := (rq_callback (req s))\<lparr>cb_failed := callback\<rparr>\<rparr>,
           trace := trace s @ map (\<lambda>c. CallbackCall (fst c) (snd c)) calls\<rparr>)"

definition matchCallback_finally ::
  "cb_params \<Rightarrow> RequestMethod option \<Rightarrow> ('h, 'f) pipeline \<Rightarrow> ('h, 'f) pipeline"
where
  "matchCallback_finally params m s =
     (let (callback, calls) = matchCallback (cb_finally (rq_callback (req s))) params m
      in s\<lparr>req := (req s)\<lparr>rq_callback := (rq_callback (req s))\<lparr>cb_finally := callback\<rparr>\<rparr>,
           trace := trace s @ map (\<lambda>c. CallbackCall (fst c) (snd c)) calls\<rparr>)"

subsection \<open>hookFailed and handleBadResponse\<close>

definition hookFailed ::
  "string \<Rightarrow> RequestReturn option \<Rightarrow> ('h, 'f) pipeline \<Rightarrow> ('h, 'f) pipeline"
where
  "hookFailed hook response s =
     (let failedParams =
            \<lparr>fp_error = Error (''Request interrupted by '' @ hook),
             fp_intercept = True,
             fp_hook = Some hook,
             fp_response = response\<rparr>;
          s1 = s\<lparr>trace := trace s @ [HandlerCall (cfg_failed (rq_config (req s))) failedParams]\<rparr>;
          s2 = matchCallback_failed (FailedArgs failedParams) None s1
      in matchCallback_finally RequestArgs None s2)"

text \<open>
  A hook of the pipeline sees its first parameter and the state of the run at the call.
\<close>

type_synonym ('h, 'f) hook_app = "'h \<Rightarrow> hook_param \<times> ('h, 'f) pipeline \<Rightarrow> bool"

definition handleBadResponse ::
  "('h, 'f) globalConfig \<Rightarrow> ('h, 'f) hook_app \<Rightarrow> RequestReturn \<Rightarrow> ('h, 'f) pipeline
   \<Rightarrow> ('h, 'f) pipeline"
where
  "handleBadResponse gc app response s =
     (let status = rr_status response in
      if \<not> fst (runHooks app (runAll gc) (hooks_failed (cfg_hooks (rq_config (req s))))
                  (HookStatus status, s))
      then hookFailed ''failed'' None s
      else
        (let failedParams =
               \<lparr>fp_error = StatusCode status,
                fp_intercept = False,
                fp_hook = None,
                fp_response = Some response\<rparr>;
             s1 = s\<lparr>trace := trace s @ [HandlerCall (cfg_failed (rq_config (req s))) failedParams]\<rparr>;
             s2 = matchCallback_failed (FailedArgs failedParams) None s1
         in matchCallback_finally RequestArgs None s2))"

subsection \<open>sendRequest and passthrough\<close>

text \<open>
  The constant \<open>data\<close> of \<open>sendRequest\<close>: \<open>body\<close> and \<open>query\<close> hold the reference that
  \<open>request.data\<close> held at the call, not a copy of the object.
\<close>

record SendData =
  sd_body :: "nat option"
  sd_query :: "query_ref option"


definition deref_query :: "(nat \<Rightarrow> RequestData) \<Rightarrow> query_ref option \<Rightarrow> query option" where
  "deref_query h q =
     (case q of
        None \<Rightarrow> None
      | Some (QueryString str) \<Rightarrow> Some (QString str)
      | Some (QueryObject a) \<Rightarrow> Some (QRecord (h a)))"

text \<open>\<open>Object.fromEntries(entries)\<close>: a later entry of the same name overwrites.\<close>

definition fromEntries :: "(string \<times> string) list \<Rightarrow> (string \<times> string) list" where
  "fromEntries entries = fold (\<lambda>kv obj. obj_set (fst kv) (snd kv) obj) entries []"

text \<open>
  The callback of \<open>.catch\<close> in \<open>passthrough\<close>, for the method \<open>m\<close> of the send.
\<close>

definition onError ::
  "('h, 'f) globalConfig \<Rightarrow> ('h, 'f) hook_app \<Rightarrow> RequestMethod \<Rightarrow> error_value
   \<Rightarrow> ('h, 'f) pipeline \<Rightarrow> ('h, 'f) pipeline"
where
  "onError gc app m error s =
     (if \<not> fst (runHooks app (runAll gc) (hooks_failed (cfg_hooks (rq_config (req s))))
                  (HookError error, s))
      then hookFailed ''failed'' None s
      else
        (let failedParams =
               \<lparr>fp_error = error,
                fp_intercept = False,
                fp_hook = None,
                fp_response = None\<rparr>;
             s1 = s\<lparr>trace := trace s @ [HandlerCall (cfg_failed (rq_config (req s))) failedParams]\<rparr>;
             s2 = matchCallback_failed (FailedArgs failedParams) (Some m) s1
         in matchCallback_finally RequestArgs (Some m) s2))"

text \<open>
  The callback of \<open>.then\<close> in \<open>passthrough\<close>, for a response of the transport. An exception
  raised in it would reach the \<open>.catch\<close> callback chained behind.
\<close>

definition onResponse ::
  "('h, 'f) globalConfig \<Rightarrow> ('h, 'f) hook_app \<Rightarrow> RequestMethod \<Rightarrow> Response
   \<Rightarrow> ('h, 'f) pipeline \<Rightarrow> ('h, 'f) pipeline"
where
  "onResponse gc app m response s =
     (let data = handleResponse gc response (req s) in
      case parse JSON_parse data of
        Inl e \<Rightarrow> onError gc app m (Error ''SyntaxError'') s
      | Inr parsed \<Rightarrow>
          (let requestReturn =
                 \<lparr>rr_headers = resp_headers response,
                  rr_headersObj = fromEntries (resp_headers response),
                  rr_response = response,
                  rr_data = parsed,
                  rr_status = resp_status response,
                  rr_resend = m\<rparr>
           in if \<not> responseCode gc (resp_status response) (req s)
              then handleBadResponse gc app requestReturn s
              else if \<not> fst (runHooks app (runAll gc) (hooks_success (cfg_hooks (rq_config (req s))))
                               (HookReturn requestReturn, s))
              then hookFailed ''success'' (Some requestReturn) s
              else
                (let s1 = matchCallback_success (SuccessArgs data requestReturn) (Some m) s
                 in matchCallback_finally RequestArgs (Some m) s1)))"

text \<open>
  \<open>passthrough\<close>, up to the call of \<open>fetch\<close>, in the closure of a send with method \<open>m\<close>,
  URL \<open>url0\<close> and captured \<open>data\<close>. The first argument is the binding that core.ts has for
  the name \<open>transformPathParams\<close>: the call of an undefined binding raises a \<open>TypeError\<close>,
  which rejects the promise of the async function. \<open>addQuery\<close> is called with two arguments,
  so its \<open>body\<close> is undefined.
\<close>

type_synonym transform = "string \<Rightarrow> RequestData \<Rightarrow> (string \<times> string list) \<times> RequestData"

definition passthrough_bound ::
  "transform option \<Rightarrow> ('h, 'f) globalConfig \<Rightarrow> ('h, 'f) hook_app \<Rightarrow> RequestMethod \<Rightarrow> string
   \<Rightarrow> SendData \<Rightarrow> ('h, 'f) pipeline \<Rightarrow> ('h, 'f) pipeline"
where
  "passthrough_bound binding gc app m url0 d s =
     (let hooks = cfg_hooks (rq_config (req s)) in
      if \<not> fst (runHooks app (runAll gc) (hooks_before hooks) (HookRequest, s))
      then hookFailed ''before'' None s
      else
        (case binding of
           None \<Rightarrow> s\<lparr>trace := trace s @ [Rejected (Error ''transformPathParams is not a function'')]\<rparr>
         | Some transform \<Rightarrow>
             (let a = rq_data (req s);
                  ((url1, pathParamMatches), data1) = transform url0 (heap s a);
                  data2 = fold obj_delete pathParamMatches data1;
                  s1 = s\<lparr>heap := (heap s)(a := data2)\<rparr>;
                  r = \<lparr>tr_input = fst (addQuery url1 (deref_query (heap s1) (sd_query d)) None),
                       tr_method = m,
                       tr_headers = cfg_headers (rq_config (req s1)),
                       tr_body = map_option (heap s1) (sd_body d)\<rparr>;
                  s2 = s1\<lparr>req := (req s1)\<lparr>rq_request := Some r\<rparr>\<rparr>
              in if \<not> fst (runHooks app (runAll gc) (hooks_init hooks) (HookRequest, s2))
                 then hookFailed ''init'' None s2
                 else s2\<lparr>trace := trace s2 @ [FetchCall r]\<rparr>)))"

text \<open>
  The binding as the files stand: core.ts imports \<open>transformPathParams\<close> from \<open>./lib\<close>, and
  lib.ts declares that function without \<open>export\<close>, so the imported name is undefined.
\<close>

definition imported_transformPathParams :: "transform option" where
  "imported_transformPathParams = None"

definition passthrough ::
  "('h, 'f) globalConfig \<Rightarrow> ('h, 'f) hook_app \<Rightarrow> RequestMethod \<Rightarrow> string \<Rightarrow> SendData
   \<Rightarrow> ('h, 'f) pipeline \<Rightarrow> ('h, 'f) pipeline"
where
  "passthrough gc app m url0 d s = passthrough_bound imported_transformPathParams gc app m url0 d s"

subsection \<open>Timers\<close>







subsection \<open>User code that sends\<close>





subsection \<open>sendRequest\<close>









section \<open>Notions used in the statements\<close>

text \<open>The requests given to \<open>fetch\<close> in a trace, in order.\<close>

definition fetches :: "'f event list \<Rightarrow> TransportRequest list" where
  "fetches evs = concat (map (\<lambda>e. case e of FetchCall r \<Rightarrow> [r] | _ \<Rightarrow> []) evs)"

text \<open>A hook of the set returns false on the parameters.\<close>

definition some_hook_fails :: "('h \<Rightarrow> 'p \<Rightarrow> bool) \<Rightarrow> 'h hook_set option \<Rightarrow> 'p \<Rightarrow> bool" where
  "some_hook_fails app hooks params =
     (case hooks of
        None \<Rightarrow> False
      | Some (Single hook) \<Rightarrow> \<not> app hook params
      | Some (Many hs) \<Rightarrow> (\<exists>hook \<in> set hs. \<not> app hook params))"

text \<open>
  The calls of a failure dispatch with method \<open>m\<close>: the descriptor's \<open>failed\<close> handler, then
  the \<open>failed\<close> entries, then the \<open>finally\<close> entries.
\<close>

definition failure_calls :: "('h, 'f) pipeline \<Rightarrow> FailedParams \<Rightarrow> RequestMethod option \<Rightarrow> 'f event list" where
  "failure_calls s failedParams m =
     HandlerCall (cfg_failed (rq_config (req s))) failedParams
     # map (\<lambda>c. CallbackCall (co_func c) (FailedArgs failedParams))
         (filter (co_matches m) (cb_failed (rq_callback (req s))))
     @ map (\<lambda>c. CallbackCall (co_func c) RequestArgs)
         (filter (co_matches m) (cb_finally (rq_callback (req s))))"

subsection \<open>Debounce\<close>





subsection \<open>An example descriptor\<close>

text \<open>
  A descriptor for \<open>/users/:id\<close> with given hooks and callbacks, its payload at address 0;
  a process-wide configuration that accepts the status codes from 200 to 299 and hands the
  body text on; hooks numbered so that hook 0 returns false and every other hook true.
\<close>

definition no_hooks :: "nat RequestHooks" where
  "no_hooks = \<lparr>hooks_before = None, hooks_init = None, hooks_success = None, hooks_failed = None\<rparr>"

definition demo_request :: "nat RequestHooks \<Rightarrow> string RequestCallback \<Rightarrow> (nat, string) FastjsRequest" where
  "demo_request hooks callbacks =
     \<lparr>rq_url = ''/users/:id'',
      rq_data = 0,
      rq_config = \<lparr>cfg_headers = [], cfg_query = None, cfg_wait = None, cfg_hooks = hooks,
                    cfg_failed = ''onFailed''\<rparr>,
      rq_callback = callbacks,
      rq_wait = None,
      rq_request = None\<rparr>"

definition demo_state :: "nat RequestHooks \<Rightarrow> string RequestCallback \<Rightarrow> RequestData \<Rightarrow> (nat, string) pipeline" where
  "demo_state hooks callbacks payload =
     \<lparr>req = demo_request hooks callbacks, heap = (\<lambda>a. if a = 0 then payload else []), trace = []\<rparr>"

definition demo_global :: "(nat, string) globalConfig" where
  "demo_global =
     \<lparr>handleResponse = (\<lambda>response request. resp_text response),
      responseCode = (\<lambda>status request. 200 \<le> status \<and> status < 300),
      runAll = False\<rparr>"

definition demo_app :: "(nat, string) hook_app" where
  "demo_app hook params = (hook \<noteq> 0)"

definition demo_callbacks :: "string RequestCallback" where
  "demo_callbacks =
     \<lparr>cb_success = [\<lparr>co_func = ''s1'', co_once = False, co_method = None\<rparr>],
      cb_failed = [\<lparr>co_func = ''f1'', co_once = False, co_method = Some GET\<rparr>,
                   \<lparr>co_func = ''f2'', co_once = False, co_method = None\<rparr>],
      cb_finally = [\<lparr>co_func = ''y1'', co_once = False, co_method = Some POST\<rparr>,
                    \<lparr>co_func = ''y2'', co_once = False, co_method = None\<rparr>]\<rparr>"

definition demo_response :: "int \<Rightarrow> Response" where
  "demo_response status = \<lparr>resp_status = status, resp_headers = [], resp_text = ''not json''\<rparr>"

definition demo_return :: "RequestMethod \<Rightarrow> int \<Rightarrow> RequestReturn" where
  "demo_return m status =
     \<lparr>rr_headers = [], rr_headersObj = [], rr_response = demo_response status,
      rr_data = JsonString ''not json'', rr_status = status, rr_resend = m\<rparr>"




section \<open>Verified properties\<close>

subsection \<open>runHooks\<close>

lemma runHooks_loop_result:
  "fst (runHooks_loop app all hs p r) = (r \<and> (\<forall>h \<in> set (snd (runHooks_loop app all hs p r)). app h p))"
  by (induction hs arbitrary: r) (auto simp: split_beta)

lemma runHooks_loop_all: "snd (runHooks_loop app True hs p r) = hs"
  by (induction hs arbitrary: r) (simp_all add: split_beta)

lemma runHooks_loop_first:
  "snd (runHooks_loop app False hs p r) = takeWhile (\<lambda>h. app h p) hs @ take 1 (dropWhile (\<lambda>h. app h p) hs)"
  by (induction hs arbitrary: r) (simp_all add: split_beta)

text \<open>
  C4. \<open>runHooks\<close> returns true for an absent hook set and the function's own result for a
  single function. For a list, the hooks are called in the list's order with the same
  parameters, and the result is false exactly when a hook that was called returned false:
  with \<open>runAll\<close> off the calls stop at the first hook that returns false, with \<open>runAll\<close> on
  every hook is called and the result is the conjunction of all. The result is a returned
  boolean in every case.
\<close>

theorem runHooks_spec:
  "runHooks app all None p = (True, [])
   \<and> runHooks app all (Some (Single h)) p = (app h p, [h])
   \<and> (fst (runHooks app all (Some (Many hs)) p) = False
        \<longleftrightarrow> (\<exists>h \<in> set (snd (runHooks app all (Some (Many hs)) p)). \<not> app h p))
   \<and> snd (runHooks app False (Some (Many hs)) p)
        = takeWhile (\<lambda>h. app h p) hs @ take 1 (dropWhile (\<lambda>h. app h p) hs)
   \<and> snd (runHooks app True (Some (Many hs)) p) = hs
   \<and> fst (runHooks app True (Some (Many hs)) p) = (\<forall>h \<in> set hs. app h p)"
proof -
  have res: "fst (runHooks_loop app all hs p True)
             = (\<forall>h \<in> set (snd (runHooks_loop app all hs p True)). app h p)" for all
    using runHooks_loop_result [of app all hs p True] by simp
  have "fst (runHooks_loop app True hs p True) = (\<forall>h \<in> set hs. app h p)"
    using res [of True] by (simp add: runHooks_loop_all)
  then show ?thesis
    using res [of all] by (simp add: runHooks_def runHooks_loop_all runHooks_loop_first)
qed

theorem runHooks_spec_witness:
  "runHooks (\<lambda>h p. h \<noteq> p) False (Some (Many [1, 2, 0, 3, 0::nat])) (0::nat) = (False, [1, 2, 0])
   \<and> runHooks (\<lambda>h p. h \<noteq> p) True (Some (Many [1, 2, 0, 3, 0::nat])) (0::nat) = (False, [1, 2, 0, 3, 0])
   \<and> runHooks (\<lambda>h p. h \<noteq> p) False (Some (Many [1, 2, 3::nat])) (0::nat) = (True, [1, 2, 3])"
  using runHooks_spec [of "\<lambda>h p. h \<noteq> p" False "0::nat" "1::nat" "[1, 2, 0, 3, 0]"]
    runHooks_spec [of "\<lambda>h p. h \<noteq> p" True "0::nat" "1::nat" "[1, 2, 0, 3, 0]"]
    runHooks_spec [of "\<lambda>h p. h \<noteq> p" False "0::nat" "1::nat" "[1, 2, 3]"]
  by (simp add: runHooks_def)

subsection \<open>matchCallback\<close>

lemma matchCallback_loop_eq:
  "i \<le> length callback \<Longrightarrow>
   matchCallback_loop i callback params m calls =
     (take i callback @ filter (\<lambda>c. \<not> (co_matches m c \<and> co_once c)) (drop i callback),
      calls @ map (\<lambda>c. (co_func c, params)) (filter (co_matches m) (drop i callback)))"
proof (induction i callback params m calls rule: matchCallback_loop.induct)
  case (1 i callback params m calls)
  let ?call = "callback ! i"
  let ?keep = "\<lambda>c. \<not> (co_matches m c \<and> co_once c)"
  show ?case
  proof (cases "i < length callback")
    case False
    with "1.prems" have "i = length callback" by simp
    then show ?thesis by (subst matchCallback_loop.simps) simp
  next
    case True
    have dr: "drop i callback = ?call # drop (Suc i) callback"
      using True by (simp add: Cons_nth_drop_Suc)
    have tk: "take (Suc i) callback = take i callback @ [?call]"
      using True by (simp add: take_Suc_conv_app_nth)
    show ?thesis
    proof (cases "co_method ?call \<noteq> None \<and> co_method ?call \<noteq> m")
      case skip: True
      then have cm: "\<not> co_matches m ?call" by (auto simp: co_matches_def)
      have "matchCallback_loop i callback params m calls
            = matchCallback_loop (i + 1) callback params m calls"
        using True skip by (subst matchCallback_loop.simps) (auto simp: Let_def)
      also have "\<dots> = (take (i + 1) callback @ filter ?keep (drop (i + 1) callback),
          calls @ map (\<lambda>c. (co_func c, params)) (filter (co_matches m) (drop (i + 1) callback)))"
        using "1.IH"(1) [OF True refl skip] True by simp
      finally show ?thesis using cm by (simp add: dr tk)
    next
      case nskip: False
      then have cm: "co_matches m ?call" by (auto simp: co_matches_def)
      show ?thesis
      proof (cases "co_once ?call")
        case once: True
        have len: "i \<le> length (splice1 i callback)" using True by (simp add: splice1_def)
        have "matchCallback_loop i callback params m calls
              = matchCallback_loop i (splice1 i callback) params m (calls @ [(co_func ?call, params)])"
          using True nskip once by (subst matchCallback_loop.simps) (auto simp: Let_def)
        also have "\<dots> = (take i (splice1 i callback) @ filter ?keep (drop i (splice1 i callback)),
           (calls @ [(co_func ?call, params)])
             @ map (\<lambda>c. (co_func c, params)) (filter (co_matches m) (drop i (splice1 i callback))))"
          using "1.IH"(2) [OF True refl nskip once len] .
        finally show ?thesis using True cm once by (simp add: dr splice1_def)
      next
        case nonce: False
        have "matchCallback_loop i callback params m calls
              = matchCallback_loop (i + 1) callback params m (calls @ [(co_func ?call, params)])"
          using True nskip nonce by (subst matchCallback_loop.simps) (auto simp: Let_def)
        also have "\<dots> = (take (i + 1) callback @ filter ?keep (drop (i + 1) callback),
           (calls @ [(co_func ?call, params)])
             @ map (\<lambda>c. (co_func c, params)) (filter (co_matches m) (drop (i + 1) callback)))"
          using "1.IH"(3) [OF True refl nskip nonce] True by simp
        finally show ?thesis using cm nonce by (simp add: dr tk)
      qed
    qed
  qed
qed

lemma matchCallback_eq:
  "matchCallback callback params m =
     (filter (\<lambda>c. \<not> (co_matches m c \<and> co_once c)) callback,
      map (\<lambda>c. (co_func c, params)) (filter (co_matches m) callback))"
  by (simp add: matchCallback_def matchCallback_loop_eq)

text \<open>
  C6. \<open>matchCallback\<close> calls, in registration order and once each, exactly the entries
  that have no method filter or whose filter is the dispatch method, with the given
  parameters; an entry with another filter is skipped and stays in the array; an entry with
  \<open>once\<close> leaves the array at its call, and the entries behind it are still processed. A
  later dispatch works on the array that is left, so it calls no removed entry.
\<close>

theorem matchCallback_spec:
  "matchCallback callback params m =
     (filter (\<lambda>c. \<not> (co_matches m c \<and> co_once c)) callback,
      map (\<lambda>c. (co_func c, params)) (filter (co_matches m) callback))
   \<and> snd (matchCallback (fst (matchCallback callback params m)) params' m') =
       map (\<lambda>c. (co_func c, params'))
         (filter (\<lambda>c. \<not> (co_matches m c \<and> co_once c) \<and> co_matches m' c) callback)"
proof -
  let ?left = "filter (\<lambda>c. \<not> (co_matches m c \<and> co_once c)) callback"
  have first: "matchCallback callback params m =
      (?left, map (\<lambda>c. (co_func c, params)) (filter (co_matches m) callback))"
    unfolding matchCallback_def using matchCallback_loop_eq [of 0 callback params m "[]"] by simp
  have "snd (matchCallback ?left params' m') =
      map (\<lambda>c. (co_func c, params')) (filter (co_matches m') ?left)"
    unfolding matchCallback_def using matchCallback_loop_eq [of 0 ?left params' m' "[]"] by simp
  then show ?thesis using first by simp
qed

theorem matchCallback_spec_witness:
  "matchCallback
     [\<lparr>co_func = ''a'', co_once = True, co_method = None\<rparr>,
      \<lparr>co_func = ''b'', co_once = True, co_method = Some POST\<rparr>,
      \<lparr>co_func = ''c'', co_once = False, co_method = Some GET\<rparr>,
      \<lparr>co_func = ''d'', co_once = True, co_method = Some GET\<rparr>] (7::nat) (Some GET) =
     ([\<lparr>co_func = ''b'', co_once = True, co_method = Some POST\<rparr>,
       \<lparr>co_func = ''c'', co_once = False, co_method = Some GET\<rparr>],
      [(''a'', 7), (''c'', 7), (''d'', 7)])
   \<and> snd (matchCallback
       (fst (matchCallback
          [\<lparr>co_func = ''a'', co_once = True, co_method = None\<rparr>,
           \<lparr>co_func = ''b'', co_once = True, co_method = Some POST\<rparr>,
           \<lparr>co_func = ''c'', co_once = False, co_method = Some GET\<rparr>,
           \<lparr>co_func = ''d'', co_once = True, co_method = Some GET\<rparr>] (7::nat) (Some GET)))
       (8::nat) (Some GET)) = [(''c'', 8)]"
  using matchCallback_spec
    [of "[\<lparr>co_func = ''a'', co_once = True, co_method = None\<rparr>,
          \<lparr>co_func = ''b'', co_once = True, co_method = Some POST\<rparr>,
          \<lparr>co_func = ''c'', co_once = False, co_method = Some GET\<rparr>,
          \<lparr>co_func = ''d'', co_once = True, co_method = Some GET\<rparr>]"
        "7::nat" "Some GET" "8::nat" "Some GET"]
  by (simp add: co_matches_def matchCallback_eq)

subsection \<open>transformPathParams\<close>

lemma pathReg_test_tl: "pathReg_test c \<Longrightarrow> remove1 CHR '':'' c = tl c \<and> c = CHR '':'' # tl c"
  by (cases c) (auto simp: pathReg_test_def)

lemma pathReg_test_inj: "pathReg_test c \<Longrightarrow> pathReg_test c' \<Longrightarrow> tl c = tl c' \<Longrightarrow> c = c'"
  by (metis pathReg_test_tl)

lemma inherited_plain: "key \<notin> set prototype_keys \<Longrightarrow> inherited key = JUndefined"
  by (auto simp: inherited_def prototype_keys_def)

lemma obj_get_filter:
  "obj_get (filter (\<lambda>kv. P (fst kv)) obj) k = (if P k then obj_get obj k else inherited k)"
  by (induction obj) (auto simp: obj_get_def)

lemma test_current:
  assumes "pathReg_test c \<longrightarrow> tl c \<notin> set prototype_keys"
  shows "(pathReg_test c \<and> truthy (obj_get (filter (\<lambda>kv. keep data pre (fst kv)) data) (remove1 CHR '':'' c)))
   = (resolvable data c \<and> c \<notin> set pre)"
proof (cases "pathReg_test c")
  case False
  then show ?thesis by (simp add: resolvable_def)
next
  case True
  then have inh: "inherited (tl c) = JUndefined" using assms by (simp add: inherited_plain)
  have "keep data pre (tl c) \<longleftrightarrow> \<not> (resolvable data c \<and> c \<in> set pre)" if "truthy (obj_get data (tl c))"
    using True that unfolding keep_def resolvable_def by (metis pathReg_test_inj)
  then show ?thesis
    using True inh by (auto simp: obj_get_filter pathReg_test_tl resolvable_def)
qed

lemma get_current:
  "resolvable data c \<Longrightarrow> c \<notin> set pre \<Longrightarrow> tl c \<notin> set prototype_keys \<Longrightarrow>
   obj_get (filter (\<lambda>kv. keep data pre (fst kv)) data) (remove1 CHR '':'' c) = obj_get data (tl c)"
  using test_current [of c data pre]
  by (auto simp: obj_get_filter resolvable_def pathReg_test_tl inherited_plain split: if_splits)

lemma delete_current:
  "resolvable data c \<Longrightarrow>
   obj_delete (remove1 CHR '':'' c) (filter (\<lambda>kv. keep data pre (fst kv)) data)
   = filter (\<lambda>kv. keep data (c # pre) (fst kv)) data"
  by (auto simp: obj_delete_def keep_def resolvable_def pathReg_test_tl intro!: filter_cong)

lemma keep_skip:
  "\<not> (resolvable data c \<and> c \<notin> set pre) \<Longrightarrow> keep data (c # pre) = keep data pre"
  by (auto simp: keep_def fun_eq_iff)

lemma upt_0_Suc: "[0..<Suc n] = 0 # map Suc [0..<n]"
  by (simp add: upt_conv_Cons map_Suc_upt del: upt_Suc)

lemma cons_at_0: "cons_at data pre (c # rest) 0 = (resolvable data c \<and> c \<notin> set pre)"
  by (simp add: cons_at_def)

lemma cons_at_Suc: "cons_at data pre (c # rest) (Suc j) = cons_at data (c # pre) rest j"
  by (auto simp: cons_at_def)

lemma mapComponents_Cons_True:
  "pathReg_test c \<and> truthy (obj_get q (remove1 CHR '':'' c)) \<Longrightarrow>
   mapComponents (c # rest) q ms =
     (let r = mapComponents rest (obj_delete (remove1 CHR '':'' c) q) (ms @ [remove1 CHR '':'' c])
      in (obj_get q (remove1 CHR '':'' c) # fst r, snd r))"
  by (simp add: Let_def split_beta)

lemma mapComponents_Cons_False:
  "\<not> (pathReg_test c \<and> truthy (obj_get q (remove1 CHR '':'' c))) \<Longrightarrow>
   mapComponents (c # rest) q ms = (let r = mapComponents rest q ms in (JStr c # fst r, snd r))"
  by (auto simp: Let_def split_beta)

lemma mapComponents_gen:
  "plain_names comps \<Longrightarrow>
   mapComponents comps (filter (\<lambda>kv. keep data pre (fst kv)) data) ms =
     (map (\<lambda>i. if cons_at data pre comps i then obj_get data (tl (comps ! i)) else JStr (comps ! i))
        [0..<length comps],
      filter (\<lambda>kv. keep data (rev comps @ pre) (fst kv)) data,
      ms @ map (\<lambda>i. tl (comps ! i)) (filter (cons_at data pre comps) [0..<length comps]))"
proof (induction comps arbitrary: pre ms)
  case Nil
  show ?case by simp
next
  case (Cons c rest)
  let ?q = "filter (\<lambda>kv. keep data pre (fst kv)) data"
  have plain_c: "pathReg_test c \<longrightarrow> tl c \<notin> set prototype_keys"
    and plain_rest: "plain_names rest"
    using Cons.prems by (simp_all add: plain_names_def)
  note IH = Cons.IH [OF plain_rest]
  show ?case
  proof (cases "resolvable data c \<and> c \<notin> set pre")
    case True
    then have t: "pathReg_test c \<and> truthy (obj_get ?q (remove1 CHR '':'' c))"
      using test_current [OF plain_c, of data pre] by simp
    have key: "remove1 CHR '':'' c = tl c" using True by (simp add: resolvable_def pathReg_test_tl)
    have g: "obj_get ?q (tl c) = obj_get data (tl c)"
      using True plain_c get_current [of data c pre] by (simp add: key resolvable_def)
    have d: "obj_delete (tl c) ?q = filter (\<lambda>kv. keep data (c # pre) (fst kv)) data"
      using True delete_current [of data c pre] by (simp add: key)
    have "mapComponents (c # rest) ?q ms =
          (let r = mapComponents rest (filter (\<lambda>kv. keep data (c # pre) (fst kv)) data) (ms @ [tl c])
           in (obj_get data (tl c) # fst r, snd r))"
      using mapComponents_Cons_True [OF t, of rest ms] by (simp only: key g d)
    then show ?thesis
      using True by (simp add: IH upt_0_Suc cons_at_0 cons_at_Suc filter_map comp_def del: upt_Suc)
  next
    case False
    then have t: "\<not> (pathReg_test c \<and> truthy (obj_get ?q (remove1 CHR '':'' c)))"
      using test_current [OF plain_c, of data pre] by simp
    have k: "keep data pre = keep data (c # pre)" using False keep_skip [of data c pre] by simp
    have "mapComponents (c # rest) ?q ms =
          (let r = mapComponents rest (filter (\<lambda>kv. keep data (c # pre) (fst kv)) data) ms
           in (JStr c # fst r, snd r))"
      using mapComponents_Cons_False [OF t, of rest ms] by (simp only: k)
    then show ?thesis
      using False by (simp add: IH upt_0_Suc cons_at_0 cons_at_Suc filter_map comp_def del: upt_Suc)
  qed
qed

lemma set_spec_consumed:
  "set (spec_consumed data segs) = tl ` {c \<in> set segs. resolvable data c}"
proof -
  have "\<exists>i < length segs. consumed_at data segs i \<and> segs ! i = c" if mem: "c \<in> set segs" and res: "resolvable data c" for c
  proof -
    obtain xs ys where s: "segs = xs @ c # ys" "c \<notin> set xs"
      using split_list_first [OF mem] by blast
    then have "consumed_at data segs (length xs)" using res by (simp add: consumed_at_def)
    then show ?thesis using s by (intro exI [of _ "length xs"]) simp
  qed
  moreover have "segs ! i \<in> set segs \<and> resolvable data (segs ! i)" if "i < length segs" "consumed_at data segs i" for i
    using that by (simp add: consumed_at_def)
  ultimately show ?thesis
    unfolding spec_consumed_def by (auto simp: image_iff)
qed

lemma mapComponents_spec:
  "plain_names segs \<Longrightarrow>
   mapComponents segs data [] = (spec_components data segs, spec_remaining data segs, spec_consumed data segs)"
proof -
  assume plain: "plain_names segs"
  have k0: "filter (\<lambda>kv. keep data [] (fst kv)) data = data" by (simp add: keep_def)
  have c0: "cons_at data [] segs = consumed_at data segs" by (simp add: cons_at_def consumed_at_def fun_eq_iff)
  have "filter (\<lambda>kv. keep data (rev segs @ []) (fst kv)) data = spec_remaining data segs"
    unfolding spec_remaining_def set_spec_consumed by (rule filter_cong) (auto simp: keep_def)
  then show ?thesis
    using mapComponents_gen [OF plain, of data "[]" "[]"]
    by (simp add: k0 c0 spec_components_def spec_consumed_def)
qed

lemma map_of_filter_key:
  "map_of (filter (\<lambda>kv. P (fst kv)) obj) k = (if P k then map_of obj k else None)"
  by (induction obj) auto

lemma mapComponents_falsy:
  assumes "map_of q name = Some v" and "\<not> truthy v"
  shows "map_of (fst (snd (mapComponents comps q ms))) name = Some v
    \<and> (name \<in> set (snd (snd (mapComponents comps q ms))) \<longrightarrow> name \<in> set ms)
    \<and> length (fst (mapComponents comps q ms)) = length comps
    \<and> (\<forall>i < length comps. comps ! i = CHR '':'' # name
          \<longrightarrow> fst (mapComponents comps q ms) ! i = JStr (CHR '':'' # name))"
  using assms(1)
proof (induction comps arbitrary: q ms)
  case Nil
  then show ?case by simp
next
  case (Cons c rest)
  let ?key = "remove1 CHR '':'' c"
  have falsy: "\<not> truthy (obj_get q name)" using Cons.prems assms(2) by (simp add: obj_get_def)
  show ?case
  proof (cases "pathReg_test c \<and> truthy (obj_get q ?key)")
    case True
    then have ne: "?key \<noteq> name" using falsy by auto
    then have c_ne: "c \<noteq> CHR '':'' # name" by auto
    have "map_of (obj_delete ?key q) name = Some v"
      using ne Cons.prems map_of_filter_key [of "\<lambda>k. k \<noteq> ?key" q name] by (simp add: obj_delete_def)
    from Cons.IH [OF this, of "ms @ [?key]"] show ?thesis
      using ne c_ne True by (simp add: Let_def nth_Cons' split_beta)
  next
    case False
    from Cons.IH [OF Cons.prems, of ms] show ?thesis
      using False by (auto simp: Let_def nth_Cons' split_beta)
  qed
qed

text \<open>
  C3, as stated, fails on the code. A key that is present with a falsy value (here the empty
  string) is not substituted, not deleted and not recorded; a second segment with the same
  name finds its key already consumed; a segment \<open>:constructor\<close> is substituted and
  recorded although the data map has no such key, because \<open>query[key]\<close> also reads the
  properties every object inherits; and \<open>addQuery\<close> builds the query string from the query
  it was given, which still holds the key that its call of \<open>transformPathParams\<close> consumed
  from the merged copy.
\<close>

theorem transformPathParams_counterexample:
  "transformPathParams ''/users/:id'' [(''id'', JStr [])]
     = ((''/users/:id'', []), [(''id'', JStr [])])
   \<and> transformPathParams ''/:id/:id'' [(''id'', JStr ''7'')] = ((''/7/:id'', [''id'']), [])
   \<and> transformPathParams ''/a/:constructor'' []
     = ((''/a/function Object() { [native code] }'', [''constructor'']), [])
   \<and> addQuery ''/users/:id'' (Some (QRecord [(''id'', JStr ''7'')])) None
     = ((''/users/7?id=7'', [''id'']), None)"
  by (simp add: addQuery_def transformPathParams_def join_def obj_get_def obj_delete_def Let_def
      pathReg_test_def Object_assign_def Object_keys_def URLSearchParams_of_record_def
      URLSearchParams_toString_def urlencode_def urlencode_char_def inherited_def prototype_keys_def
      own_properties_def array_index_def is_digit_def)

text \<open>
  C3, amended. For every data map and every URL none of whose \<open>:name\<close> segments names a
  property that every object inherits, \<open>transformPathParams\<close> splits the URL on \<open>/\<close>; each
  segment \<open>:name\<close> whose key has a truthy value in the data map is, at its first occurrence,
  replaced by the string value of \<open>data[name]\<close>, the key is deleted from the map and \<open>name\<close>
  is recorded in the returned list of consumed keys; every key of the returned list is absent
  from the map the call leaves; every other segment is returned as it is, with its colon.
  The call returns a result for every input.
\<close>

theorem transformPathParams_spec:
  assumes "plain_names (split CHR ''/'' url)"
  shows "transformPathParams url data =
     ((join ''/'' (spec_components data (split CHR ''/'' url)),
       spec_consumed data (split CHR ''/'' url)),
      spec_remaining data (split CHR ''/'' url))
   \<and> (\<forall>k \<in> set (snd (fst (transformPathParams url data))).
         map_of (snd (transformPathParams url data)) k = None)"
proof -
  let ?segs = "split CHR ''/'' url"
  have eq: "transformPathParams url data =
      ((join ''/'' (spec_components data ?segs), spec_consumed data ?segs), spec_remaining data ?segs)"
    by (simp add: transformPathParams_def mapComponents_spec [OF assms] Let_def)
  have "map_of (spec_remaining data ?segs) k = None" if "k \<in> set (spec_consumed data ?segs)" for k
    using that map_of_filter_key [of "\<lambda>k. k \<notin> set (spec_consumed data ?segs)" data k]
    by (simp add: spec_remaining_def)
  then show ?thesis by (simp add: eq)
qed

theorem transformPathParams_spec_witness:
  "transformPathParams ''/users/:id/:id/:x''
      [(''id'', JNum True ''7''), (''x'', JStr []), (''active'', JBool True)]
     = ((''/users/7/:id/:x'', [''id'']), [(''x'', JStr []), (''active'', JBool True)])"
proof -
  have plain: "plain_names (split CHR ''/'' ''/users/:id/:id/:x'')"
    by (simp add: plain_names_def pathReg_test_def prototype_keys_def)
  show ?thesis
    using transformPathParams_spec
      [OF plain, of "[(''id'', JNum True ''7''), (''x'', JStr []), (''active'', JBool True)]"]
    by (simp add: spec_components_def spec_consumed_def spec_remaining_def consumed_at_def resolvable_def
        join_def obj_get_def pathReg_test_def upt_rec Let_def inherited_def prototype_keys_def)
qed

text \<open>
  C10. When the key \<open>name\<close> is present with a falsy value, \<open>name\<close> is not in the returned
  list of consumed keys, the key keeps its value in the map, and every segment \<open>:name\<close> is in
  the joined components as it was.
\<close>

theorem transformPathParams_falsy:
  assumes "map_of data name = Some v" and "\<not> truthy v"
  shows "name \<notin> set (snd (fst (transformPathParams url data)))
    \<and> map_of (snd (transformPathParams url data)) name = Some v
    \<and> fst (fst (transformPathParams url data)) = join ''/'' (fst (mapComponents (split CHR ''/'' url) data []))
    \<and> (\<forall>i < length (split CHR ''/'' url). split CHR ''/'' url ! i = CHR '':'' # name
          \<longrightarrow> fst (mapComponents (split CHR ''/'' url) data []) ! i = JStr (CHR '':'' # name))"
  using mapComponents_falsy [OF assms, of "split CHR ''/'' url" "[]"]
  by (simp add: transformPathParams_def Let_def split_beta)

theorem transformPathParams_falsy_witness:
  "transformPathParams ''/users/:id'' [(''id'', JNum False ''0'')]
     = ((''/users/:id'', []), [(''id'', JNum False ''0'')])"
  using transformPathParams_falsy [of "[(''id'', JNum False ''0'')]" "''id''" "JNum False ''0''" "''/users/:id''"]
  by (simp add: transformPathParams_def join_def obj_get_def pathReg_test_def Let_def)

subsection \<open>parse\<close>

lemma JSON_parse_not_json: "JSON_parse ''not json'' = Inl SyntaxError"
  by code_simp

lemma JSON_parse_array: "JSON_parse ''[1, 2.5]'' = Inr (JsonArray [JsonNumber 1 0, JsonNumber 25 (- 1)])"
  by code_simp

lemma parse_eq:
  "parse parser data = Inr (case parser data of Inl e \<Rightarrow> JsonString data | Inr v \<Rightarrow> v)"
  by (simp add: parse_def try_catch_def split: sum.splits)

text \<open>
  C8. For every input string \<open>parse\<close> returns a value and raises nothing, whatever the JSON
  parser does: the decoded value when the parser accepts the string, the string itself when
  the parser raises. \<open>JSON.parse\<close> rejects \<open>not json\<close>, so \<open>parse\<close> returns that string.
\<close>

theorem parse_spec:
  "(\<exists>v. parse parser data = Inr v)
   \<and> (\<forall>v. parser data = Inr v \<longrightarrow> parse parser data = Inr v)
   \<and> (\<forall>e. parser data = Inl e \<longrightarrow> parse parser data = Inr (JsonString data))
   \<and> parse JSON_parse ''not json'' = Inr (JsonString ''not json'')"
proof (intro conjI allI impI)
  show "\<exists>v. parse parser data = Inr v"
    by (cases "parser data") (simp_all add: parse_def try_catch_def)
next
  fix v assume "parser data = Inr v"
  then show "parse parser data = Inr v" by (simp add: parse_def try_catch_def)
next
  fix e assume "parser data = Inl e"
  then show "parse parser data = Inr (JsonString data)" by (simp add: parse_def try_catch_def)
next
  have "JSON_parse ''not json'' = Inl SyntaxError" by (rule JSON_parse_not_json)
  then show "parse JSON_parse ''not json'' = Inr (JsonString ''not json'')"
    by (simp add: parse_def try_catch_def)
qed

theorem parse_spec_witness:
  "parse JSON_parse ''[1, 2.5]'' = Inr (JsonArray [JsonNumber 1 0, JsonNumber 25 (- 1)])
   \<and> parse JSON_parse ''not json'' = Inr (JsonString ''not json'')"
  using parse_spec [of JSON_parse "''[1, 2.5]''"] JSON_parse_array by simp

subsection \<open>Dispatch on the failure and success paths\<close>

lemmas demo_defs = demo_state_def demo_request_def demo_global_def demo_app_def demo_callbacks_def
  demo_response_def demo_return_def no_hooks_def

lemma matchCallback_success_eq:
  "matchCallback_success params m s =
     s\<lparr>req := (req s)\<lparr>rq_callback := (rq_callback (req s))
            \<lparr>cb_success := filter (\<lambda>c. \<not> (co_matches m c \<and> co_once c)) (cb_success (rq_callback (req s)))\<rparr>\<rparr>,
       trace := trace s @ map (\<lambda>c. CallbackCall (co_func c) params)
                  (filter (co_matches m) (cb_success (rq_callback (req s))))\<rparr>"
  by (simp add: matchCallback_success_def matchCallback_eq comp_def)

lemma matchCallback_failed_eq:
  "matchCallback_failed params m s =
     s\<lparr>req := (req s)\<lparr>rq_callback := (rq_callback (req s))
            \<lparr>cb_failed := filter (\<lambda>c. \<not> (co_matches m c \<and> co_once c)) (cb_failed (rq_callback (req s)))\<rparr>\<rparr>,
       trace := trace s @ map (\<lambda>c. CallbackCall (co_func c) params)
                  (filter (co_matches m) (cb_failed (rq_callback (req s))))\<rparr>"
  by (simp add: matchCallback_failed_def matchCallback_eq comp_def)

lemma matchCallback_finally_eq:
  "matchCallback_finally params m s =
     s\<lparr>req := (req s)\<lparr>rq_callback := (rq_callback (req s))
            \<lparr>cb_finally := filter (\<lambda>c. \<not> (co_matches m c \<and> co_once c)) (cb_finally (rq_callback (req s)))\<rparr>\<rparr>,
       trace := trace s @ map (\<lambda>c. CallbackCall (co_func c) params)
                  (filter (co_matches m) (cb_finally (rq_callback (req s))))\<rparr>"
  by (simp add: matchCallback_finally_def matchCallback_eq comp_def)

lemma co_matches_None: "co_matches None = (\<lambda>c. co_method c = None)"
  by (simp add: co_matches_def fun_eq_iff)

lemma hookFailed_trace:
  "trace (hookFailed hook response s) =
     trace s @ failure_calls s
       \<lparr>fp_error = Error (''Request interrupted by '' @ hook), fp_intercept = True,
        fp_hook = Some hook, fp_response = response\<rparr> None"
  by (simp add: hookFailed_def Let_def matchCallback_failed_eq matchCallback_finally_eq failure_calls_def)

lemma handleBadResponse_pass_trace:
  "fst (runHooks app (runAll gc) (hooks_failed (cfg_hooks (rq_config (req s)))) (HookStatus (rr_status response), s)) \<Longrightarrow>
   trace (handleBadResponse gc app response s) =
     trace s @ failure_calls s
       \<lparr>fp_error = StatusCode (rr_status response), fp_intercept = False,
        fp_hook = None, fp_response = Some response\<rparr> None"
  by (simp add: handleBadResponse_def Let_def matchCallback_failed_eq matchCallback_finally_eq failure_calls_def)


lemma runHooks_false_iff:
  "fst (runHooks app all hooks params) = (\<not> some_hook_fails app hooks params)"
proof (cases hooks)
  case None
  then show ?thesis by (simp add: runHooks_def some_hook_fails_def)
next
  case (Some hs)
  show ?thesis
  proof (cases hs)
    case (Single h)
    with Some show ?thesis by (simp add: runHooks_def some_hook_fails_def)
  next
    case (Many l)
    have sub: "set (snd (runHooks_loop app all l params True)) \<subseteq> set l"
    proof (cases all)
      case True
      then show ?thesis by (simp add: runHooks_loop_all)
    next
      case False
      then show ?thesis
        using set_takeWhileD [of _ "\<lambda>h. app h params" l] set_dropWhileD [of _ "\<lambda>h. app h params" l]
        by (auto simp: runHooks_loop_first dest!: in_set_takeD)
    qed
    have "fst (runHooks_loop app all l params True) = (\<forall>h \<in> set l. app h params)"
    proof (cases all)
      case True
      then show ?thesis using runHooks_loop_result [of app True l params True] by (simp add: runHooks_loop_all)
    next
      case False
      have "(\<forall>h \<in> set (takeWhile (\<lambda>h. app h params) l @ take 1 (dropWhile (\<lambda>h. app h params) l)). app h params)
            = (\<forall>h \<in> set l. app h params)"
      proof (cases "\<forall>h \<in> set l. app h params")
        case True
        then show ?thesis using sub False by (auto simp: runHooks_loop_first)
      next
        case nall: False
        then have "dropWhile (\<lambda>h. app h params) l \<noteq> []" by (simp add: dropWhile_eq_Nil_conv)
        then obtain x xs where d: "dropWhile (\<lambda>h. app h params) l = x # xs" by (cases "dropWhile (\<lambda>h. app h params) l") auto
        then have "\<not> app x params" using hd_dropWhile [of "\<lambda>h. app h params" l] by auto
        then show ?thesis using nall d by auto
      qed
      then show ?thesis using False runHooks_loop_result [of app False l params True] by (simp add: runHooks_loop_first)
    qed
    with Some Many show ?thesis by (simp add: runHooks_def some_hook_fails_def)
  qed
qed

lemma hookFailed_frame:
  "heap (hookFailed hook response s) = heap s
   \<and> rq_request (req (hookFailed hook response s)) = rq_request (req s)
   \<and> rq_wait (req (hookFailed hook response s)) = rq_wait (req s)
   \<and> rq_config (req (hookFailed hook response s)) = rq_config (req s)
   \<and> rq_url (req (hookFailed hook response s)) = rq_url (req s)
   \<and> rq_data (req (hookFailed hook response s)) = rq_data (req s)"
  by (simp add: hookFailed_def Let_def matchCallback_failed_eq matchCallback_finally_eq)

lemma fetches_append: "fetches (xs @ ys) = fetches xs @ fetches ys"
  by (simp add: fetches_def)

lemma fetches_failure_calls: "fetches (failure_calls s fp m) = []"
  by (simp add: fetches_def failure_calls_def comp_def)

text \<open>
  C9. \<open>hookFailed\<close>, and \<open>handleBadResponse\<close> when no \<open>failed\<close> hook vetoes, dispatch the
  \<open>failed\<close> and the \<open>finally\<close> entries with the method \<open>null\<close>: after the handler, exactly the
  entries without a method filter are called, so an entry with a filter is skipped. Neither
  function is given the method of the request.
\<close>

theorem failure_dispatch_null_method:
  "trace (hookFailed hook response s) =
     trace s
     @ HandlerCall (cfg_failed (rq_config (req s)))
         \<lparr>fp_error = Error (''Request interrupted by '' @ hook), fp_intercept = True,
          fp_hook = Some hook, fp_response = response\<rparr>
     # map (\<lambda>c. CallbackCall (co_func c)
              (FailedArgs \<lparr>fp_error = Error (''Request interrupted by '' @ hook), fp_intercept = True,
                           fp_hook = Some hook, fp_response = response\<rparr>))
         (filter (\<lambda>c. co_method c = None) (cb_failed (rq_callback (req s))))
     @ map (\<lambda>c. CallbackCall (co_func c) RequestArgs)
         (filter (\<lambda>c. co_method c = None) (cb_finally (rq_callback (req s))))
   \<and> (\<not> some_hook_fails app (hooks_failed (cfg_hooks (rq_config (req s)))) (HookStatus (rr_status rr), s) \<longrightarrow>
       trace (handleBadResponse gc app rr s) =
         trace s
         @ HandlerCall (cfg_failed (rq_config (req s)))
             \<lparr>fp_error = StatusCode (rr_status rr), fp_intercept = False,
              fp_hook = None, fp_response = Some rr\<rparr>
         # map (\<lambda>c. CallbackCall (co_func c)
                  (FailedArgs \<lparr>fp_error = StatusCode (rr_status rr), fp_intercept = False,
                               fp_hook = None, fp_response = Some rr\<rparr>))
             (filter (\<lambda>c. co_method c = None) (cb_failed (rq_callback (req s))))
         @ map (\<lambda>c. CallbackCall (co_func c) RequestArgs)
             (filter (\<lambda>c. co_method c = None) (cb_finally (rq_callback (req s)))))"
  using runHooks_false_iff [of app "runAll gc" "hooks_failed (cfg_hooks (rq_config (req s)))" "(HookStatus (rr_status rr), s)"]
  by (simp add: hookFailed_trace handleBadResponse_pass_trace failure_calls_def co_matches_None)


theorem failure_dispatch_null_method_witness:
  "trace (handleBadResponse demo_global demo_app (demo_return GET 404) (demo_state no_hooks demo_callbacks [])) =
     [HandlerCall ''onFailed''
        \<lparr>fp_error = StatusCode 404, fp_intercept = False, fp_hook = None,
         fp_response = Some (demo_return GET 404)\<rparr>,
      CallbackCall ''f2''
        (FailedArgs \<lparr>fp_error = StatusCode 404, fp_intercept = False, fp_hook = None,
                     fp_response = Some (demo_return GET 404)\<rparr>),
      CallbackCall ''y2'' RequestArgs]"
  using failure_dispatch_null_method
    [of "''failed''" None "demo_state no_hooks demo_callbacks []" demo_app "demo_return GET 404" demo_global]
  by (simp add: demo_defs some_hook_fails_def)

text \<open>
  C7, as stated, fails on the code: on the success path of a GET request a \<open>finally\<close> entry
  with the filter POST is not called.
\<close>

theorem success_path_counterexample:
  "trace (onResponse demo_global demo_app GET (demo_response 200) (demo_state no_hooks demo_callbacks [])) =
     [CallbackCall ''s1'' (SuccessArgs ''not json'' (demo_return GET 200)),
      CallbackCall ''y2'' RequestArgs]"
  by (simp add: onResponse_def Let_def parse_eq JSON_parse_not_json runHooks_def fromEntries_def
      matchCallback_success_eq matchCallback_finally_eq co_matches_def demo_defs)

text \<open>
  C7, amended. On the success path (the status passes the response-code predicate and no
  \<open>success\<close> hook returns false) the \<open>success\<close> entries are dispatched first and the
  \<open>finally\<close> entries after them, both with the method of the request as filter: an entry is
  called when it has no method filter or its filter is that method.
\<close>

theorem success_path_dispatch:
  assumes "responseCode gc (resp_status response) (req s)"
    and "\<not> some_hook_fails app (hooks_success (cfg_hooks (rq_config (req s))))
           (HookReturn
             \<lparr>rr_headers = resp_headers response,
              rr_headersObj = fromEntries (resp_headers response),
              rr_response = response,
              rr_data = (case JSON_parse (handleResponse gc response (req s)) of
                           Inl e \<Rightarrow> JsonString (handleResponse gc response (req s)) | Inr v \<Rightarrow> v),
              rr_status = resp_status response,
              rr_resend = m\<rparr>, s)"
  shows "trace (onResponse gc app m response s) =
     trace s
     @ map (\<lambda>c. CallbackCall (co_func c)
              (SuccessArgs (handleResponse gc response (req s))
                 \<lparr>rr_headers = resp_headers response,
                  rr_headersObj = fromEntries (resp_headers response),
                  rr_response = response,
                  rr_data = (case JSON_parse (handleResponse gc response (req s)) of
                               Inl e \<Rightarrow> JsonString (handleResponse gc response (req s)) | Inr v \<Rightarrow> v),
                  rr_status = resp_status response,
                  rr_resend = m\<rparr>))
         (filter (co_matches (Some m)) (cb_success (rq_callback (req s))))
     @ map (\<lambda>c. CallbackCall (co_func c) RequestArgs)
         (filter (co_matches (Some m)) (cb_finally (rq_callback (req s))))"
  using assms
  by (simp add: onResponse_def Let_def parse_eq runHooks_false_iff
      matchCallback_success_eq matchCallback_finally_eq)


theorem success_path_dispatch_witness:
  "trace (onResponse demo_global demo_app POST (demo_response 200) (demo_state no_hooks demo_callbacks [])) =
     [CallbackCall ''s1'' (SuccessArgs ''not json'' (demo_return POST 200)),
      CallbackCall ''y1'' RequestArgs,
      CallbackCall ''y2'' RequestArgs]"
  using success_path_dispatch
    [of demo_global "demo_response 200" "demo_state no_hooks demo_callbacks []" demo_app POST]
  by (simp add: JSON_parse_not_json fromEntries_def co_matches_def some_hook_fails_def demo_defs)

text \<open>
  C1. The code at a response with status 404 that the response-code predicate rejects, for a
  descriptor whose \<open>failed\<close> hook returns false: the \<open>FailedParams\<close> given to the handler and
  to the \<open>failed\<close> entry has \<open>response = null\<close>, where the claim has the assembled
  \<open>RequestReturn\<close>.
\<close>

theorem bad_status_veto_response_null:
  "trace (onResponse demo_global demo_app DELETE (demo_response 404)
            (demo_state (no_hooks\<lparr>hooks_failed := Some (Single 0)\<rparr>) demo_callbacks [])) =
     [HandlerCall ''onFailed''
        \<lparr>fp_error = Error ''Request interrupted by failed'', fp_intercept = True,
         fp_hook = Some ''failed'', fp_response = None\<rparr>,
      CallbackCall ''f2''
        (FailedArgs \<lparr>fp_error = Error ''Request interrupted by failed'', fp_intercept = True,
                     fp_hook = Some ''failed'', fp_response = None\<rparr>),
      CallbackCall ''y2'' RequestArgs]"
  by (simp add: onResponse_def Let_def parse_eq JSON_parse_not_json runHooks_def fromEntries_def
      handleBadResponse_def hookFailed_trace failure_calls_def co_matches_def demo_defs)

text \<open>
  C5, as stated, fails on the code: when the \<open>before\<close> hook of a GET send returns false, the
  \<open>failed\<close> entry with the filter GET is not called, and the \<open>finally\<close> entry is called with
  the descriptor, not with \<open>FailedParams\<close>.
\<close>

theorem before_veto_counterexample:
  "trace (passthrough demo_global demo_app GET ''/users/:id''
            \<lparr>sd_body = None, sd_query = Some (QueryObject 0)\<rparr>
            (demo_state (no_hooks\<lparr>hooks_before := Some (Single 0)\<rparr>) demo_callbacks [(''id'', JStr ''7'')])) =
     [HandlerCall ''onFailed''
        \<lparr>fp_error = Error ''Request interrupted by before'', fp_intercept = True,
         fp_hook = Some ''before'', fp_response = None\<rparr>,
      CallbackCall ''f2''
        (FailedArgs \<lparr>fp_error = Error ''Request interrupted by before'', fp_intercept = True,
                     fp_hook = Some ''before'', fp_response = None\<rparr>),
      CallbackCall ''y2'' RequestArgs]"
  by (simp add: passthrough_def passthrough_bound_def Let_def runHooks_def hookFailed_trace failure_calls_def
      co_matches_def demo_defs)

text \<open>
  C5, amended. When a \<open>before\<close> hook returns false, \<open>passthrough\<close> calls \<open>fetch\<close> not at all
  and builds no transport request; it calls the descriptor's \<open>failed\<close> handler with
  \<open>FailedParams\<close> that has \<open>intercept = true\<close>, \<open>hook = "before"\<close> and \<open>response = null\<close>, then
  the \<open>failed\<close> entries without a method filter with the same \<open>FailedParams\<close>, then the
  \<open>finally\<close> entries without a method filter with the descriptor.
\<close>

theorem before_veto:
  assumes "some_hook_fails app (hooks_before (cfg_hooks (rq_config (req s)))) (HookRequest, s)"
  shows "trace (passthrough gc app m url0 d s) =
       trace s
       @ HandlerCall (cfg_failed (rq_config (req s)))
           \<lparr>fp_error = Error ''Request interrupted by before'', fp_intercept = True,
            fp_hook = Some ''before'', fp_response = None\<rparr>
       # map (\<lambda>c. CallbackCall (co_func c)
                (FailedArgs \<lparr>fp_error = Error ''Request interrupted by before'', fp_intercept = True,
                             fp_hook = Some ''before'', fp_response = None\<rparr>))
           (filter (\<lambda>c. co_method c = None) (cb_failed (rq_callback (req s))))
       @ map (\<lambda>c. CallbackCall (co_func c) RequestArgs)
           (filter (\<lambda>c. co_method c = None) (cb_finally (rq_callback (req s))))
    \<and> fetches (trace (passthrough gc app m url0 d s)) = fetches (trace s)
    \<and> rq_request (req (passthrough gc app m url0 d s)) = rq_request (req s)
    \<and> heap (passthrough gc app m url0 d s) = heap s"
proof -
  have veto: "\<not> fst (runHooks app (runAll gc) (hooks_before (cfg_hooks (rq_config (req s)))) (HookRequest, s))"
    using assms by (simp add: runHooks_false_iff)
  then have p: "passthrough gc app m url0 d s = hookFailed ''before'' None s"
    by (simp add: passthrough_def passthrough_bound_def Let_def)
  show ?thesis
    unfolding p
    by (simp add: hookFailed_trace hookFailed_frame fetches_append fetches_failure_calls)
       (simp add: failure_calls_def co_matches_None)
qed

theorem before_veto_witness:
  "fetches (trace (passthrough demo_global demo_app POST ''/users/:id''
            \<lparr>sd_body = Some 0, sd_query = None\<rparr>
            (demo_state (no_hooks\<lparr>hooks_before := Some (Many [1, 0, 2])\<rparr>) demo_callbacks [(''id'', JStr ''7'')]))) = []
   \<and> trace (passthrough demo_global demo_app POST ''/users/:id''
            \<lparr>sd_body = Some 0, sd_query = None\<rparr>
            (demo_state (no_hooks\<lparr>hooks_before := Some (Many [1, 0, 2])\<rparr>) demo_callbacks [(''id'', JStr ''7'')])) =
     [HandlerCall ''onFailed''
        \<lparr>fp_error = Error ''Request interrupted by before'', fp_intercept = True,
         fp_hook = Some ''before'', fp_response = None\<rparr>,
      CallbackCall ''f2''
        (FailedArgs \<lparr>fp_error = Error ''Request interrupted by before'', fp_intercept = True,
                     fp_hook = Some ''before'', fp_response = None\<rparr>),
      CallbackCall ''y2'' RequestArgs]"
  using before_veto
    [of demo_app "demo_state (no_hooks\<lparr>hooks_before := Some (Many [1, 0, 2])\<rparr>) demo_callbacks [(''id'', JStr ''7'')]"
        demo_global POST "''/users/:id''" "\<lparr>sd_body = Some 0, sd_query = None\<rparr>"]
  by (simp add: some_hook_fails_def fetches_def demo_defs)

subsection \<open>Debounce\<close>






























end
